theory Spec2Isabelle
  imports Complex_Main "HOL-Library.Word" "HOL-Library.Multiset" "HOL-Library.Option_ord"
    "HOL-Library.List_Lexorder" "HOL-Library.Product_Lexorder"
begin

section \<open>JavaScript values\<close>

text \<open>
  A JavaScript string is a sequence of UTF-16 code units, and \<open>length\<close> counts code units.
  \<open>js\<close> turns a literal of the theory into such a string.
\<close>

type_synonym code_unit = "16 word"

type_synonym jsstring = "code_unit list"

definition js :: "string \<Rightarrow> jsstring" where
  "js s = map of_char s"

text \<open>
  The fields of a request body after \<open>express.json()\<close>, as far as they are JSON scalars:
  a field that is absent destructures to \<open>undefined\<close>. A number is the rational value of the
  double. Array and object values are not part of this model: as \<open>title\<close>, \<open>priority\<close> or
  \<open>completed\<close> they behave like \<open>JBool True\<close> (truthy, not a string, not a priority); as
  \<open>description\<close> or \<open>due_date\<close> they reach the database driver, whose treatment of them
  is not described here.
\<close>

datatype jsval = JUndefined | JNull | JBool bool | JNum rat | JStr jsstring

fun truthy :: "jsval \<Rightarrow> bool" where
  "truthy JUndefined = False"
| "truthy JNull = False"
| "truthy (JBool b) = b"
| "truthy (JNum r) = (r \<noteq> 0)"
| "truthy (JStr s) = (s \<noteq> [])"

text \<open>The code units of WhiteSpace and LineTerminator, which \<open>trim\<close> and \<open>parseInt\<close> strip.\<close>

definition is_white_space :: "code_unit \<Rightarrow> bool" where
  "is_white_space c \<longleftrightarrow>
     c = 0x09 \<or> c = 0x0A \<or> c = 0x0B \<or> c = 0x0C \<or> c = 0x0D \<or> c = 0x20 \<or> c = 0xA0 \<or>
     c = 0x1680 \<or> (0x2000 \<le> c \<and> c \<le> 0x200A) \<or> c = 0x2028 \<or> c = 0x2029 \<or>
     c = 0x202F \<or> c = 0x205F \<or> c = 0x3000 \<or> c = 0xFEFF"

definition trim :: "jsstring \<Rightarrow> jsstring" where
  "trim s = rev (dropWhile is_white_space (rev (dropWhile is_white_space s)))"

subsection \<open>parseInt\<close>

text \<open>
  \<open>parseInt(string)\<close> with no radix: leading white space is skipped, a sign is read, the
  prefix \<open>0x\<close> or \<open>0X\<close> selects radix 16, and the longest run of digits of the radix is the
  value; \<open>None\<close> is NaN, returned when that run is empty. The value is exact here; the
  double of the source is the same number up to \<open>2 ^ 53\<close>.
\<close>

definition digit_value :: "code_unit \<Rightarrow> nat option" where
  "digit_value c =
     (if 0x30 \<le> c \<and> c \<le> 0x39 then Some (unat c - 0x30)
      else if 0x61 \<le> c \<and> c \<le> 0x7A then Some (unat c - 0x61 + 10)
      else if 0x41 \<le> c \<and> c \<le> 0x5A then Some (unat c - 0x41 + 10)
      else None)"

definition is_digit :: "nat \<Rightarrow> code_unit \<Rightarrow> bool" where
  "is_digit R c = (case digit_value c of None \<Rightarrow> False | Some d \<Rightarrow> d < R)"

definition radix_value :: "nat \<Rightarrow> jsstring \<Rightarrow> nat" where
  "radix_value R Z = foldl (\<lambda>acc c. acc * R + (case digit_value c of None \<Rightarrow> 0 | Some d \<Rightarrow> d)) 0 Z"

fun strip_sign :: "jsstring \<Rightarrow> int \<times> jsstring" where
  "strip_sign [] = (1, [])"
| "strip_sign (c # S) =
     (if c = 0x2D then (- 1, S) else if c = 0x2B then (1, S) else (1, c # S))"

fun strip_prefix :: "jsstring \<Rightarrow> nat \<times> jsstring" where
  "strip_prefix (z # x # S) =
     (if z = 0x30 \<and> (x = 0x78 \<or> x = 0x58) then (16, S) else (10, z # x # S))"
| "strip_prefix S = (10, S)"

definition parseInt :: "jsstring \<Rightarrow> int option" where
  "parseInt inputString =
     (case strip_sign (dropWhile is_white_space inputString) of (sign, S) \<Rightarrow>
      case strip_prefix S of (R, S') \<Rightarrow>
      let Z = takeWhile (is_digit R) S'
      in if Z = [] then None else Some (sign * int (radix_value R Z)))"

section \<open>The task store\<close>

text \<open>
  The table \<open>tasks\<close>. The columns \<open>title\<close>, \<open>description\<close>, \<open>priority\<close> and \<open>due_date\<close>
  have TEXT affinity, so what they hold is NULL or a text; \<open>title\<close> and \<open>priority\<close> are
  only ever written with strings. \<open>completed\<close> is an INTEGER column. A timestamp is the
  reading of the clock that \<open>CURRENT_TIMESTAMP\<close> takes, in seconds.
\<close>

type_synonym timestamp = nat

datatype colval = Null | Text jsstring

record task =
  task_id :: int
  title :: jsstring
  description :: colval
  completed :: int
  priority :: jsstring
  due_date :: colval
  created_at :: timestamp
  updated_at :: timestamp

text \<open>\<open>sqlite_sequence\<close> is the largest row id that AUTOINCREMENT has handed out.\<close>

record store =
  rows :: "task list"
  sqlite_sequence :: int

text \<open>
  Two conversions belong to the database engine and not to this program, and both go
  through floating point: \<open>numeric_affinity\<close> is the number that the engine reads a text
  as when it compares the text with the INTEGER column \<open>id\<close> (\<open>None\<close> when the text is not
  numeric, or is not an integer: then no row is equal to it), and \<open>text_affinity\<close> is the
  text that a number becomes when it is stored in a TEXT column. The handlers take them
  as the parameter \<open>E\<close>, and what is proved holds for every engine.
\<close>

record engine =
  numeric_affinity :: "jsstring \<Rightarrow> int option"
  text_affinity :: "rat \<Rightarrow> jsstring"

text \<open>
  Binding a value to a placeholder of a TEXT column. The driver binds numbers, strings
  and \<open>null\<close>, and throws a TypeError (\<open>None\<close>) on a boolean or on \<open>undefined\<close>.
\<close>

fun bind_text :: "engine \<Rightarrow> jsval \<Rightarrow> colval option" where
  "bind_text E JNull = Some Null"
| "bind_text E (JStr s) = Some (Text s)"
| "bind_text E (JNum r) = Some (Text (text_affinity E r))"
| "bind_text E (JBool b) = None"
| "bind_text E JUndefined = None"

text \<open>
  \<open>INSERT INTO tasks (title, description, priority, due_date) VALUES (?, ?, ?, ?)\<close>:
  the new row id is one more than the largest that ever existed, \<open>completed\<close> defaults
  to 0 and both timestamps to the clock. The result is \<open>lastInsertRowid\<close> and the store.
\<close>

definition insert_row ::
  "timestamp \<Rightarrow> jsstring \<Rightarrow> colval \<Rightarrow> jsstring \<Rightarrow> colval \<Rightarrow> store \<Rightarrow> int \<times> store" where
  "insert_row now ti de pr du s =
     (let rowid = max (sqlite_sequence s) (fold max (map task_id (rows s)) 0) + 1;
          t = \<lparr>task_id = rowid, title = ti, description = de, completed = 0, priority = pr,
               due_date = du, created_at = now, updated_at = now\<rparr>
      in (rowid, \<lparr>rows = rows s @ [t], sqlite_sequence = rowid\<rparr>))"

text \<open>The three rows of \<open>initialTasks\<close>, inserted at start-up at the clock readings given.\<close>

definition initial_store :: "timestamp \<Rightarrow> timestamp \<Rightarrow> timestamp \<Rightarrow> store" where
  "initial_store t1 t2 t3 =
     snd (insert_row t3 (js ''Update dependencies'')
            (Text (js ''Check and update npm packages'')) (js ''low'') Null
       (snd (insert_row t2 (js ''Review pull requests'')
            (Text (js ''Review and merge pending PRs'')) (js ''medium'') (Text (js ''2026-02-14''))
         (snd (insert_row t1 (js ''Complete project documentation'')
            (Text (js ''Write comprehensive docs for the TODO app'')) (js ''high'')
            (Text (js ''2026-02-15''))
            \<lparr>rows = [], sqlite_sequence = 0\<rparr>)))))"

text \<open>\<open>WHERE id = ?\<close> with the path segment bound as a text.\<close>

definition row_matches :: "engine \<Rightarrow> jsstring \<Rightarrow> task \<Rightarrow> bool" where
  "row_matches E i t \<longleftrightarrow> numeric_affinity E i = Some (task_id t)"

text \<open>\<open>db.prepare('SELECT * FROM tasks WHERE id = ?').get(id)\<close>: the first such row.\<close>

definition find_by_id :: "engine \<Rightarrow> store \<Rightarrow> jsstring \<Rightarrow> task option" where
  "find_by_id E s i = find (row_matches E i) (rows s)"

section \<open>The request handlers\<close>

datatype json =
    Task_json task
  | Tasks_json "task list"
  | Error_json jsstring
  | Deleted_json jsstring int
  | Undefined_json

type_synonym response = "nat \<times> json"

record payload =
  req_title :: jsval
  req_description :: jsval
  req_priority :: jsval
  req_due_date :: jsval
  req_completed :: jsval

record query =
  q_status :: jsval
  q_priority :: jsval
  q_sort :: jsval

definition validPriorities :: "jsstring list" where
  "validPriorities = [js ''high'', js ''medium'', js ''low'']"

fun includes_val :: "jsstring list \<Rightarrow> jsval \<Rightarrow> bool" where
  "includes_val xs (JStr s) = (s \<in> set xs)"
| "includes_val xs v = False"

subsection \<open>GET /api/tasks\<close>

text \<open>
  The statement that the handler puts together: the conditions appended to
  \<open>WHERE 1=1\<close>, and the ORDER BY clause.
\<close>

datatype condition = Completed_eq int | Priority_eq jsstring

datatype ordering = Order_due_date | Order_priority | Order_title | Order_created_at_desc

record select_query =
  conditions :: "condition list"
  order_by :: ordering

definition build_query :: "query \<Rightarrow> select_query" where
  "build_query q =
     \<lparr>conditions =
        (if q_status q = JStr (js ''active'') then [Completed_eq 0]
         else if q_status q = JStr (js ''completed'') then [Completed_eq 1]
         else []) @
        (case q_priority q of
           JStr p \<Rightarrow>
             if truthy (q_priority q) \<and> includes_val validPriorities (q_priority q)
             then [Priority_eq p] else []
         | _ \<Rightarrow> []),
      order_by =
        (if q_sort q = JStr (js ''due_date'') then Order_due_date
         else if q_sort q = JStr (js ''priority'') then Order_priority
         else if q_sort q = JStr (js ''title'') then Order_title
         else Order_created_at_desc)\<rparr>"

fun holds :: "condition \<Rightarrow> task \<Rightarrow> bool" where
  "holds (Completed_eq n) t = (completed t = n)"
| "holds (Priority_eq p) t = (priority t = p)"

text \<open>
  \<open>CASE priority WHEN 'high' THEN 1 WHEN 'medium' THEN 2 WHEN 'low' THEN 3 END\<close>;
  with no ELSE the value is NULL (\<open>None\<close>), which sorts before every number.
\<close>

definition priority_rank :: "jsstring \<Rightarrow> nat option" where
  "priority_rank p =
     (if p = js ''high'' then Some 1
      else if p = js ''medium'' then Some 2
      else if p = js ''low'' then Some 3
      else None)"

text \<open>
  ORDER BY, as a stable sort on the key of the clause. SQL leaves the order of rows
  with equal keys to the engine; nothing below depends on it. Texts are compared code
  unit by code unit, which is the engine's byte order outside the surrogates.
\<close>

fun order_rows :: "ordering \<Rightarrow> task list \<Rightarrow> task list" where
  "order_rows Order_due_date ts =
     sort_key (\<lambda>t. (due_date t = Null, case due_date t of Null \<Rightarrow> [] | Text d \<Rightarrow> d)) ts"
| "order_rows Order_priority ts = sort_key (\<lambda>t. priority_rank (priority t)) ts"
| "order_rows Order_title ts = sort_key title ts"
| "order_rows Order_created_at_desc ts = sort_key (\<lambda>t. - int (created_at t)) ts"

definition select_all :: "select_query \<Rightarrow> store \<Rightarrow> task list" where
  "select_all sq s =
     order_rows (order_by sq) (filter (\<lambda>t. list_all (\<lambda>c. holds c t) (conditions sq)) (rows s))"

definition get_tasks :: "store \<Rightarrow> query \<Rightarrow> response" where
  "get_tasks s q = (200, Tasks_json (select_all (build_query q) s))"

subsection \<open>Title validation\<close>

text \<open>
  The validation that the POST and PUT handlers both write out, with the message of
  the 400 response or \<open>None\<close> when the title passes:
  \<^verbatim>\<open>if (!title || typeof title !== 'string' || title.trim() === '')\<close>,
  then \<^verbatim>\<open>if (title.length > 200)\<close>. A value that is not a string fails the first test.
\<close>

definition title_error :: "jsval \<Rightarrow> jsstring option" where
  "title_error v =
     (case v of
        JStr s \<Rightarrow>
          if \<not> truthy v \<or> trim s = [] then Some (js ''Task title is required'')
          else if length s > 200 then Some (js ''Task title must be 200 characters or less'')
          else None
      | _ \<Rightarrow> Some (js ''Task title is required''))"

subsection \<open>POST /api/tasks\<close>

definition or_null :: "jsval \<Rightarrow> jsval" where
  "or_null v = (if truthy v then v else JNull)"

text \<open>
  After the validation the title is a string; were it not, \<open>title.trim()\<close> would throw
  and the \<open>catch\<close> would answer 500, as it does when the driver refuses a value.
\<close>

definition create_task :: "engine \<Rightarrow> timestamp \<Rightarrow> store \<Rightarrow> payload \<Rightarrow> response \<times> store" where
  "create_task E now s b =
     (case title_error (req_title b) of
        Some e \<Rightarrow> ((400, Error_json e), s)
      | None \<Rightarrow>
          let taskPriority =
                (case req_priority b of
                   JStr p \<Rightarrow>
                     if truthy (req_priority b) \<and> includes_val validPriorities (req_priority b)
                     then p else js ''medium''
                 | _ \<Rightarrow> js ''medium'')
          in case (req_title b, bind_text E (or_null (req_description b)),
                   bind_text E (or_null (req_due_date b))) of
               (JStr ti, Some de, Some du) \<Rightarrow>
                 (case insert_row now (trim ti) de taskPriority du s of
                    (rowid, s') \<Rightarrow>
                      ((201, case find (\<lambda>t. task_id t = rowid) (rows s') of
                               Some newTask \<Rightarrow> Task_json newTask
                             | None \<Rightarrow> Undefined_json), s'))
             | _ \<Rightarrow> ((500, Error_json (js ''Failed to create task'')), s))"

subsection \<open>PUT /api/tasks/:id\<close>

text \<open>
  The SET clause is put together from the fields that are not \<open>undefined\<close>, one
  assignment each, with \<open>updated_at = CURRENT_TIMESTAMP\<close> last.
\<close>

datatype assignment =
    Set_title jsstring
  | Set_description jsval
  | Set_priority jsstring
  | Set_due_date jsval
  | Set_completed int
  | Set_updated_at

fun bindable :: "engine \<Rightarrow> assignment \<Rightarrow> bool" where
  "bindable E (Set_description v) = (bind_text E v \<noteq> None)"
| "bindable E (Set_due_date v) = (bind_text E v \<noteq> None)"
| "bindable E a = True"

fun set_column :: "engine \<Rightarrow> timestamp \<Rightarrow> assignment \<Rightarrow> task \<Rightarrow> task" where
  "set_column E now (Set_title x) t = t\<lparr>title := x\<rparr>"
| "set_column E now (Set_description v) t =
     (case bind_text E v of Some c \<Rightarrow> t\<lparr>description := c\<rparr> | None \<Rightarrow> t)"
| "set_column E now (Set_priority p) t = t\<lparr>priority := p\<rparr>"
| "set_column E now (Set_due_date v) t =
     (case bind_text E v of Some c \<Rightarrow> t\<lparr>due_date := c\<rparr> | None \<Rightarrow> t)"
| "set_column E now (Set_completed n) t = t\<lparr>completed := n\<rparr>"
| "set_column E now Set_updated_at t = t\<lparr>updated_at := now\<rparr>"

text \<open>
  \<open>UPDATE tasks SET ... WHERE id = ?\<close>: the parameters are bound first, and a value
  that the driver refuses makes \<open>run\<close> throw (\<open>None\<close>) before any row is written.
\<close>

definition run_update ::
  "engine \<Rightarrow> timestamp \<Rightarrow> assignment list \<Rightarrow> jsstring \<Rightarrow> store \<Rightarrow> store option" where
  "run_update E now updates i s =
     (if list_all (bindable E) updates
      then Some (s\<lparr>rows := map (\<lambda>t. if row_matches E i t
                                      then fold (set_column E now) updates t else t) (rows s)\<rparr>)
      else None)"

text \<open>
  The assignments of the SET clause with their parameters. When this is built the title
  and the priority have passed their checks, so each is a string or \<open>undefined\<close>.
\<close>

definition build_updates :: "payload \<Rightarrow> assignment list" where
  "build_updates b =
     (case req_title b of JStr ti \<Rightarrow> [Set_title (trim ti)] | _ \<Rightarrow> []) @
     (if req_description b \<noteq> JUndefined then [Set_description (req_description b)] else []) @
     (case req_priority b of JStr p \<Rightarrow> [Set_priority p] | _ \<Rightarrow> []) @
     (if req_due_date b \<noteq> JUndefined then [Set_due_date (req_due_date b)] else []) @
     (if req_completed b \<noteq> JUndefined
      then [Set_completed (if truthy (req_completed b) then 1 else 0)] else []) @
     [Set_updated_at]"

text \<open>What the SET clause built from a payload makes of one row.\<close>

definition updated :: "engine \<Rightarrow> timestamp \<Rightarrow> payload \<Rightarrow> task \<Rightarrow> task" where
  "updated E now b t = fold (set_column E now) (build_updates b) t"

definition update_task ::
  "engine \<Rightarrow> timestamp \<Rightarrow> store \<Rightarrow> jsstring \<Rightarrow> payload \<Rightarrow> response \<times> store" where
  "update_task E now s i b =
     (if i = [] \<or> parseInt i = None
      then ((400, Error_json (js ''Valid task ID is required'')), s)
      else case find_by_id E s i of
        None \<Rightarrow> ((404, Error_json (js ''Task not found'')), s)
      | Some existingTask \<Rightarrow>
          (case (if req_title b \<noteq> JUndefined then title_error (req_title b) else None) of
             Some e \<Rightarrow> ((400, Error_json e), s)
           | None \<Rightarrow>
               if req_priority b \<noteq> JUndefined
                  \<and> \<not> includes_val validPriorities (req_priority b)
               then ((400, Error_json (js ''Invalid priority level'')), s)
               else
                 (case run_update E now (build_updates b) i s of
                    None \<Rightarrow> ((500, Error_json (js ''Failed to update task'')), s)
                  | Some s' \<Rightarrow>
                      ((200, case find_by_id E s' i of
                               Some updatedTask \<Rightarrow> Task_json updatedTask
                             | None \<Rightarrow> Undefined_json), s'))))"

subsection \<open>PATCH /api/tasks/:id/complete\<close>

definition toggle_task :: "engine \<Rightarrow> timestamp \<Rightarrow> store \<Rightarrow> jsstring \<Rightarrow> response \<times> store" where
  "toggle_task E now s i =
     (if i = [] \<or> parseInt i = None
      then ((400, Error_json (js ''Valid task ID is required'')), s)
      else case find_by_id E s i of
        None \<Rightarrow> ((404, Error_json (js ''Task not found'')), s)
      | Some existingTask \<Rightarrow>
          let newCompletedStatus = (if completed existingTask = 1 then 0 else 1);
              s' = s\<lparr>rows := map (\<lambda>t. if row_matches E i t
                                         then t\<lparr>completed := newCompletedStatus, updated_at := now\<rparr>
                                         else t) (rows s)\<rparr>
          in ((200, case find_by_id E s' i of
                      Some updatedTask \<Rightarrow> Task_json updatedTask
                    | None \<Rightarrow> Undefined_json), s'))"

subsection \<open>DELETE /api/tasks/:id\<close>

definition delete_task :: "engine \<Rightarrow> store \<Rightarrow> jsstring \<Rightarrow> response \<times> store" where
  "delete_task E s i =
     (if i = [] then ((400, Error_json (js ''Valid task ID is required'')), s)
      else case parseInt i of
        None \<Rightarrow> ((400, Error_json (js ''Valid task ID is required'')), s)
      | Some n \<Rightarrow>
          (case find_by_id E s i of
             None \<Rightarrow> ((404, Error_json (js ''Task not found'')), s)
           | Some existingTask \<Rightarrow>
               let s' = s\<lparr>rows := filter (\<lambda>t. \<not> row_matches E i t) (rows s)\<rparr>;
                   changes = length (rows s) - length (rows s')
               in if changes > 0
                  then ((200, Deleted_json (js ''Task deleted successfully'') n), s')
                  else ((404, Error_json (js ''Task not found'')), s')))"

section \<open>Requests in sequence\<close>

datatype request =
    List query
  | Create payload
  | Update jsstring payload
  | Toggle jsstring
  | Delete jsstring

fun handle :: "engine \<Rightarrow> timestamp \<Rightarrow> store \<Rightarrow> request \<Rightarrow> response \<times> store" where
  "handle E now s (List q) = (get_tasks s q, s)"
| "handle E now s (Create b) = create_task E now s b"
| "handle E now s (Update i b) = update_task E now s i b"
| "handle E now s (Toggle i) = toggle_task E now s i"
| "handle E now s (Delete i) = delete_task E s i"

text \<open>
  The stores that the server can be in: the seeded one, and the store after any
  request, whatever the clock reads.
\<close>

inductive reachable :: "engine \<Rightarrow> store \<Rightarrow> bool" for E :: engine where
  seeded: "reachable E (initial_store t1 t2 t3)"
| served: "reachable E s \<Longrightarrow> reachable E (snd (handle E now s r))"

text \<open>
  The two columns with a fixed range: \<open>completed\<close> is 0 or 1 and \<open>priority\<close> is one of
  the three levels.
\<close>

definition columns_ok :: "task \<Rightarrow> bool" where
  "columns_ok t \<longleftrightarrow> (completed t = 0 \<or> completed t = 1) \<and> priority t \<in> set validPriorities"

text \<open>
  An engine for the examples: it reads a text of decimal digits, with or without a
  sign, as the integer it denotes, and no other text as a number. No example stores a
  number, so its \<open>text_affinity\<close> is never applied.
\<close>

definition decimal_text :: "jsstring \<Rightarrow> int option" where
  "decimal_text i =
     (case strip_sign i of (sign, S) \<Rightarrow>
        if S \<noteq> [] \<and> list_all (is_digit 10) S then Some (sign * int (radix_value 10 S))
        else None)"

definition sample_engine :: engine where
  "sample_engine = \<lparr>numeric_affinity = decimal_text, text_affinity = (\<lambda>r. [])\<rparr>"

definition no_payload :: payload where
  "no_payload = \<lparr>req_title = JUndefined, req_description = JUndefined, req_priority = JUndefined,
     req_due_date = JUndefined, req_completed = JUndefined\<rparr>"

section \<open>Properties\<close>

subsection \<open>Title validation and the INSERT statement\<close>

lemma trim_nonempty: "trim x \<noteq> [] \<Longrightarrow> x \<noteq> []"
  by (auto simp: trim_def)

lemma title_error_string:
  "title_error (JStr x) =
     (if trim x = [] then Some (js ''Task title is required'')
      else if length x > 200 then Some (js ''Task title must be 200 characters or less'')
      else None)"
  using trim_nonempty [of x] by (auto simp: title_error_def)


lemma fold_max_ge: "(m::int) \<le> fold max xs m"
  by (induction xs arbitrary: m) (auto intro: order_trans [OF max.cobounded2])

lemma fold_max_mem: "x \<in> set xs \<Longrightarrow> (x::int) \<le> fold max xs m"
proof (induction xs arbitrary: m)
  case Nil
  then show ?case by simp
next
  case (Cons a xs)
  show ?case
  proof (cases "x = a")
    case True
    have "a \<le> max a m" by simp
    also have "\<dots> \<le> fold max xs (max a m)" by (rule fold_max_ge)
    finally show ?thesis using True by simp
  next
    case False
    with Cons show ?thesis by simp
  qed
qed

lemma find_fresh:
  "\<forall>t\<in>set ts. task_id t \<noteq> n \<Longrightarrow> task_id u = n \<Longrightarrow>
   find (\<lambda>t. task_id t = n) (ts @ [u]) = Some u"
  by (induction ts) auto

lemma insert_row_result:
  "\<exists>t. insert_row now ti de pr du s = (task_id t, \<lparr>rows = rows s @ [t], sqlite_sequence = task_id t\<rparr>)
     \<and> find (\<lambda>u. task_id u = task_id t) (rows s @ [t]) = Some t
     \<and> task_id t \<notin> task_id ` set (rows s)
     \<and> title t = ti \<and> description t = de \<and> completed t = 0 \<and> priority t = pr
     \<and> due_date t = du \<and> created_at t = now \<and> updated_at t = now"
proof -
  define n where "n = max (sqlite_sequence s) (fold max (map task_id (rows s)) 0) + 1"
  define t where "t = \<lparr>task_id = n, title = ti, description = de, completed = 0, priority = pr,
               due_date = du, created_at = now, updated_at = now\<rparr>"
  have fresh: "\<forall>u\<in>set (rows s). task_id u \<noteq> n"
  proof
    fix u assume "u \<in> set (rows s)"
    then have "task_id u \<le> fold max (map task_id (rows s)) 0"
      by (intro fold_max_mem) simp
    then show "task_id u \<noteq> n" by (simp add: n_def)
  qed
  have "insert_row now ti de pr du s = (task_id t, \<lparr>rows = rows s @ [t], sqlite_sequence = task_id t\<rparr>)"
    by (simp add: insert_row_def Let_def t_def n_def)
  moreover have "find (\<lambda>u. task_id u = task_id t) (rows s @ [t]) = Some t"
    using fresh by (intro find_fresh) (simp_all add: t_def)
  moreover have "task_id t \<notin> task_id ` set (rows s)"
    using fresh by (auto simp: t_def)
  ultimately show ?thesis by (intro exI [of _ t]) (simp add: t_def)
qed

lemma create_task_valid:
  assumes "req_title b = JStr x" "trim x \<noteq> []" "length x \<le> 200"
      and "bind_text E (or_null (req_description b)) = Some de"
      and "bind_text E (or_null (req_due_date b)) = Some du"
  shows "\<exists>t. create_task E now s b =
            ((201, Task_json t), \<lparr>rows = rows s @ [t], sqlite_sequence = task_id t\<rparr>)
          \<and> task_id t \<notin> task_id ` set (rows s)
          \<and> title t = trim x \<and> description t = de \<and> completed t = 0
          \<and> priority t = (if includes_val validPriorities (req_priority b)
                           then (case req_priority b of JStr p \<Rightarrow> p | _ \<Rightarrow> js ''medium'') else js ''medium'')
          \<and> due_date t = du \<and> created_at t = now \<and> updated_at t = now"
proof -
  define pr where "pr = (case req_priority b of
                   JStr p \<Rightarrow>
                     if truthy (req_priority b) \<and> includes_val validPriorities (req_priority b)
                     then p else js ''medium''
                 | _ \<Rightarrow> js ''medium'')"
  have pr: "pr = (if includes_val validPriorities (req_priority b)
                           then (case req_priority b of JStr p \<Rightarrow> p | _ \<Rightarrow> js ''medium'') else js ''medium'')"
    by (cases "req_priority b") (auto simp: pr_def validPriorities_def js_def)
  obtain t where t: "insert_row now (trim x) de pr du s = (task_id t, \<lparr>rows = rows s @ [t], sqlite_sequence = task_id t\<rparr>)"
     "find (\<lambda>u. task_id u = task_id t) (rows s @ [t]) = Some t"
     "task_id t \<notin> task_id ` set (rows s)"
     "title t = trim x" "description t = de" "completed t = 0" "priority t = pr"
     "due_date t = du" "created_at t = now" "updated_at t = now"
    using insert_row_result [of now "trim x" de pr du s] by blast
  have "create_task E now s b = ((201, Task_json t), \<lparr>rows = rows s @ [t], sqlite_sequence = task_id t\<rparr>)"
    using assms t(1,2) by (simp add: create_task_def title_error_string pr_def [symmetric])
  then show ?thesis using t pr by blast
qed

lemma create_task_unbindable:
  assumes "req_title b = JStr x" "trim x \<noteq> []" "length x \<le> 200"
      and "bind_text E (or_null (req_description b)) = None \<or> bind_text E (or_null (req_due_date b)) = None"
  shows "create_task E now s b = ((500, Error_json (js ''Failed to create task'')), s)"
  using assms by (auto simp: create_task_def title_error_string split: option.splits)

lemma create_task_title_error:
  "title_error (req_title b) = Some e \<Longrightarrow> create_task E now s b = ((400, Error_json e), s)"
  by (simp add: create_task_def)

subsection \<open>The UPDATE statement\<close>

lemma set_column_frame:
  "task_id (set_column E now a t) = task_id t"
  "created_at (set_column E now a t) = created_at t"
  by (cases a; simp split: option.splits)+

lemma fold_set_column_frame:
  "task_id (fold (set_column E now) us t) = task_id t \<and>
   created_at (fold (set_column E now) us t) = created_at t"
  by (induction us arbitrary: t) (simp_all add: set_column_frame)



lemma fold_keeps_priority:
  "\<forall>a\<in>set us. \<forall>x. a \<noteq> Set_priority x \<Longrightarrow>
   priority (fold (set_column E now) us t) = priority t"
proof (induction us arbitrary: t)
  case Nil
  then show ?case by simp
next
  case (Cons a us)
  then have "priority (set_column E now a t) = priority t"
    by (cases a) (simp_all split: option.splits)
  with Cons show ?case by simp
qed


lemma fold_keeps_completed:
  "\<forall>a\<in>set us. \<forall>x. a \<noteq> Set_completed x \<Longrightarrow>
   completed (fold (set_column E now) us t) = completed t"
proof (induction us arbitrary: t)
  case Nil
  then show ?case by simp
next
  case (Cons a us)
  then have "completed (set_column E now a t) = completed t"
    by (cases a) (simp_all split: option.splits)
  with Cons show ?case by simp
qed



lemma updated_priority:
  "priority (updated E now b t) = (case req_priority b of JStr p \<Rightarrow> p | _ \<Rightarrow> priority t)"
proof -
  define front where "front = (case req_title b of JStr ti \<Rightarrow> [Set_title (trim ti)] | _ \<Rightarrow> []) @
     (if req_description b \<noteq> JUndefined then [Set_description (req_description b)] else [])"
  define rest where "rest =
     (if req_due_date b \<noteq> JUndefined then [Set_due_date (req_due_date b)] else []) @
     (if req_completed b \<noteq> JUndefined
      then [Set_completed (if truthy (req_completed b) then 1 else 0)] else []) @
     [Set_updated_at]"
  have rest: "\<forall>a\<in>set rest. \<forall>x. a \<noteq> Set_priority x"
    by (auto simp: rest_def split: jsval.splits)
  have front: "\<forall>a\<in>set front. \<forall>x. a \<noteq> Set_priority x"
    by (auto simp: front_def split: jsval.splits)
  have "build_updates b = front @
     (case req_priority b of JStr p \<Rightarrow> [Set_priority p] | _ \<Rightarrow> []) @ rest"
    by (simp add: build_updates_def rest_def front_def)
  then show ?thesis
    by (simp add: updated_def fold_keeps_priority [OF rest] fold_keeps_priority [OF front]
         split: jsval.splits)
qed


lemma updated_completed:
  "completed (updated E now b t) =
     (if req_completed b = JUndefined then completed t
      else if truthy (req_completed b) then 1 else 0)"
proof -
  define front where "front = (case req_title b of JStr ti \<Rightarrow> [Set_title (trim ti)] | _ \<Rightarrow> []) @
     (if req_description b \<noteq> JUndefined then [Set_description (req_description b)] else []) @
     (case req_priority b of JStr p \<Rightarrow> [Set_priority p] | _ \<Rightarrow> []) @
     (if req_due_date b \<noteq> JUndefined then [Set_due_date (req_due_date b)] else [])"
  have front: "\<forall>a\<in>set front. \<forall>x. a \<noteq> Set_completed x"
    by (auto simp: front_def split: jsval.splits)
  have "build_updates b = front @
     (if req_completed b \<noteq> JUndefined
      then [Set_completed (if truthy (req_completed b) then 1 else 0)] else []) @ [Set_updated_at]"
    by (simp add: build_updates_def front_def)
  then show ?thesis
    by (simp add: updated_def fold_keeps_completed [OF front])
qed


lemma updated_frame:
  "task_id (updated E now b t) = task_id t" "created_at (updated E now b t) = created_at t"
  by (simp_all add: updated_def fold_set_column_frame)

lemma find_map_matches:
  assumes "\<And>t. task_id (f t) = task_id t"
  shows "find (row_matches E i) (map (\<lambda>t. if row_matches E i t then f t else t) ts)
         = map_option f (find (row_matches E i) ts)"
  using assms by (induction ts) (auto simp: row_matches_def)

lemma run_update_Some:
  "run_update E now (build_updates b) i s = Some s' \<Longrightarrow>
   s' = s\<lparr>rows := map (\<lambda>t. if row_matches E i t then updated E now b t else t) (rows s)\<rparr>"
  by (auto simp: run_update_def updated_def split: if_splits)

lemma bindable_build_updates:
  "list_all (bindable E) (build_updates b) \<longleftrightarrow>
     (req_description b = JUndefined \<or> bind_text E (req_description b) \<noteq> None) \<and>
     (req_due_date b = JUndefined \<or> bind_text E (req_due_date b) \<noteq> None)"
  by (auto simp: build_updates_def split: jsval.splits)

lemma update_task_cases:
  assumes "i \<noteq> []" "parseInt i \<noteq> None" "find_by_id E s i = Some t0"
  shows "update_task E now s i b =
     (if req_title b \<noteq> JUndefined \<and> title_error (req_title b) \<noteq> None
      then ((400, Error_json (the (title_error (req_title b)))), s)
      else if req_priority b \<noteq> JUndefined \<and> \<not> includes_val validPriorities (req_priority b)
      then ((400, Error_json (js ''Invalid priority level'')), s)
      else if \<not> ((req_description b = JUndefined \<or> bind_text E (req_description b) \<noteq> None) \<and>
                 (req_due_date b = JUndefined \<or> bind_text E (req_due_date b) \<noteq> None))
      then ((500, Error_json (js ''Failed to update task'')), s)
      else ((200, Task_json (updated E now b t0)),
            s\<lparr>rows := map (\<lambda>t. if row_matches E i t then updated E now b t else t) (rows s)\<rparr>))"
proof -
  have found: "find_by_id E (s\<lparr>rows := map (\<lambda>t. if row_matches E i t then updated E now b t else t) (rows s)\<rparr>) i
          = Some (updated E now b t0)"
    using assms(3) find_map_matches [of "updated E now b" E i "rows s"]
    by (simp add: find_by_id_def updated_frame)
  have run: "run_update E now (build_updates b) i s =
      (if (req_description b = JUndefined \<or> bind_text E (req_description b) \<noteq> None) \<and>
                 (req_due_date b = JUndefined \<or> bind_text E (req_due_date b) \<noteq> None)
       then Some (s\<lparr>rows := map (\<lambda>t. if row_matches E i t then updated E now b t else t) (rows s)\<rparr>)
       else None)"
    unfolding run_update_def bindable_build_updates updated_def by simp
  obtain n where n: "parseInt i = Some n"
    using assms(2) by blast
  have "update_task E now s i b =
     (case (if req_title b \<noteq> JUndefined then title_error (req_title b) else None) of
             Some e \<Rightarrow> ((400, Error_json e), s)
           | None \<Rightarrow>
               if req_priority b \<noteq> JUndefined
                  \<and> \<not> includes_val validPriorities (req_priority b)
               then ((400, Error_json (js ''Invalid priority level'')), s)
               else
                 (case run_update E now (build_updates b) i s of
                    None \<Rightarrow> ((500, Error_json (js ''Failed to update task'')), s)
                  | Some s' \<Rightarrow>
                      ((200, case find_by_id E s' i of
                               Some updatedTask \<Rightarrow> Task_json updatedTask
                             | None \<Rightarrow> Undefined_json), s')))"
    using assms(1,3) n by (simp add: update_task_def)
  then show ?thesis
    by (cases "req_title b = JUndefined"; cases "title_error (req_title b)")
       (simp_all add: run found)
qed


subsection \<open>What each handler leaves in the store\<close>

lemma parseInt_Nil: "parseInt [] = None"
  by (simp add: parseInt_def)

lemma update_task_outcome:
  "snd (update_task E now s i b) = s \<or>
   snd (update_task E now s i b) =
     s\<lparr>rows := map (\<lambda>t. if row_matches E i t then updated E now b t else t) (rows s)\<rparr>
   \<and> (req_priority b = JUndefined \<or> includes_val validPriorities (req_priority b))"
proof (cases "i \<noteq> [] \<and> parseInt i \<noteq> None")
  case False
  then show ?thesis by (auto simp: update_task_def)
next
  case id: True
  show ?thesis
  proof (cases "find_by_id E s i")
    case None
    with id show ?thesis by (auto simp: update_task_def)
  next
    case (Some t0)
    show ?thesis
      using id unfolding update_task_cases [OF conjunct1 [OF id] conjunct2 [OF id] Some]
      by simp
  qed
qed

lemma toggle_task_cases:
  assumes "i \<noteq> []" "parseInt i \<noteq> None" "find_by_id E s i = Some t0"
  shows "toggle_task E now s i =
     ((200, Task_json (t0\<lparr>completed := (if completed t0 = 1 then 0 else 1), updated_at := now\<rparr>)),
      s\<lparr>rows := map (\<lambda>t. if row_matches E i t
                          then t\<lparr>completed := (if completed t0 = 1 then 0 else 1), updated_at := now\<rparr>
                          else t) (rows s)\<rparr>)"
proof -
  obtain n where n: "parseInt i = Some n"
    using assms(2) by blast
  let ?f = "\<lambda>t. t\<lparr>completed := (if completed t0 = 1 then 0 else 1), updated_at := now\<rparr>"
  have found: "find_by_id E (s\<lparr>rows := map (\<lambda>t. if row_matches E i t then ?f t else t) (rows s)\<rparr>) i
          = Some (?f t0)"
    using assms(3) find_map_matches [of ?f E i "rows s"]
    by (simp add: find_by_id_def)
  show ?thesis
    using assms(1,3) n found by (simp add: toggle_task_def Let_def)
qed

lemma toggle_task_outcome:
  "snd (toggle_task E now s i) = s \<or>
   (\<exists>c. snd (toggle_task E now s i) =
     s\<lparr>rows := map (\<lambda>t. if row_matches E i t then t\<lparr>completed := c, updated_at := now\<rparr> else t) (rows s)\<rparr>
     \<and> (c = 0 \<or> c = 1))"
proof (cases "i \<noteq> [] \<and> parseInt i \<noteq> None")
  case False
  then show ?thesis by (auto simp: toggle_task_def)
next
  case id: True
  show ?thesis
  proof (cases "find_by_id E s i")
    case None
    with id show ?thesis by (auto simp: toggle_task_def)
  next
    case (Some t0)
    show ?thesis
      unfolding toggle_task_cases [OF conjunct1 [OF id] conjunct2 [OF id] Some]
      by (intro disjI2 exI [of _ "if completed t0 = 1 then 0 else 1"]) simp
  qed
qed

lemma find_Some_set: "find P xs = Some x \<Longrightarrow> x \<in> set xs \<and> P x"
  by (induction xs) (auto split: if_splits)


lemma delete_task_cases:
  assumes "parseInt i = Some n" "find_by_id E s i = Some t0"
  shows "delete_task E s i =
     ((200, Deleted_json (js ''Task deleted successfully'') n),
      s\<lparr>rows := filter (\<lambda>t. \<not> row_matches E i t) (rows s)\<rparr>)"
proof -
  have i: "i \<noteq> []"
    using assms(1) parseInt_Nil by auto
  have "t0 \<in> set (rows s)" "\<not> \<not> row_matches E i t0"
    using find_Some_set [of "row_matches E i" "rows s" t0] assms(2)
    by (simp_all add: find_by_id_def)
  then have "length (filter (\<lambda>t. \<not> row_matches E i t) (rows s)) < length (rows s)"
    by (rule length_filter_less)
  then show ?thesis
    using i assms by (simp add: delete_task_def Let_def)
qed

lemma delete_task_outcome:
  "snd (delete_task E s i) = s \<or>
   snd (delete_task E s i) = s\<lparr>rows := filter (\<lambda>t. \<not> row_matches E i t) (rows s)\<rparr>"
proof (cases "parseInt i")
  case None
  then show ?thesis by (simp add: delete_task_def)
next
  case (Some n)
  show ?thesis
  proof (cases "find_by_id E s i")
    case None
    with Some show ?thesis by (simp add: delete_task_def)
  next
    case t0: (Some t0)
    show ?thesis unfolding delete_task_cases [OF Some t0] by simp
  qed
qed

lemma title_error_None:
  "title_error v = None \<Longrightarrow> \<exists>x. v = JStr x \<and> trim x \<noteq> [] \<and> length x \<le> 200"
  by (cases v) (auto simp: title_error_def split: if_splits)

lemma create_task_outcome:
  "snd (create_task E now s b) = s \<or>
   (\<exists>t. create_task E now s b =
            ((201, Task_json t), \<lparr>rows = rows s @ [t], sqlite_sequence = task_id t\<rparr>)
          \<and> task_id t \<notin> task_id ` set (rows s) \<and> completed t = 0
          \<and> priority t = (if includes_val validPriorities (req_priority b)
                           then (case req_priority b of JStr p \<Rightarrow> p | _ \<Rightarrow> js ''medium'') else js ''medium''))"
proof (cases "title_error (req_title b)")
  case (Some e)
  then show ?thesis by (simp add: create_task_title_error)
next
  case None
  then obtain x where x: "req_title b = JStr x" "trim x \<noteq> []" "length x \<le> 200"
    using title_error_None by blast
  show ?thesis
  proof (cases "bind_text E (or_null (req_description b)) = None \<or> bind_text E (or_null (req_due_date b)) = None")
    case True
    then show ?thesis using create_task_unbindable [OF x] by simp
  next
    case False
    then obtain de du where "bind_text E (or_null (req_description b)) = Some de"
      "bind_text E (or_null (req_due_date b)) = Some du" by auto
    from create_task_valid [OF x this, of now s] show ?thesis by blast
  qed
qed

subsection \<open>The range of the columns is kept\<close>

lemma updated_columns_ok:
  assumes "columns_ok t"
      and "req_priority b = JUndefined \<or> includes_val validPriorities (req_priority b)"
  shows "columns_ok (updated E now b t)"
  using assms
  by (cases "req_priority b")
     (auto simp: columns_ok_def updated_completed updated_priority)

lemma update_task_columns_ok:
  assumes "\<forall>t\<in>set (rows s). columns_ok t"
  shows "\<forall>t\<in>set (rows (snd (update_task E now s i b))). columns_ok t"
proof -
  consider "snd (update_task E now s i b) = s"
    | "snd (update_task E now s i b) =
         s\<lparr>rows := map (\<lambda>t. if row_matches E i t then updated E now b t else t) (rows s)\<rparr>"
      "req_priority b = JUndefined \<or> includes_val validPriorities (req_priority b)"
    using update_task_outcome [of E now s i b] by blast
  then show ?thesis
  proof cases
    case 1
    with assms show ?thesis by simp
  next
    case 2
    show ?thesis
    proof
      fix t assume "t \<in> set (rows (snd (update_task E now s i b)))"
      then obtain u where u: "u \<in> set (rows s)"
        "t = (if row_matches E i u then updated E now b u else u)"
        unfolding 2(1) by auto
      from u(1) assms have "columns_ok u" by blast
      then show "columns_ok t"
        unfolding u(2) using updated_columns_ok [OF _ 2(2)] by simp
    qed
  qed
qed

lemma toggle_task_columns_ok:
  assumes "\<forall>t\<in>set (rows s). columns_ok t"
  shows "\<forall>t\<in>set (rows (snd (toggle_task E now s i))). columns_ok t"
proof -
  consider "snd (toggle_task E now s i) = s"
    | c where "snd (toggle_task E now s i) =
         s\<lparr>rows := map (\<lambda>t. if row_matches E i t then t\<lparr>completed := c, updated_at := now\<rparr> else t) (rows s)\<rparr>"
      "c = 0 \<or> c = 1"
    using toggle_task_outcome [of E now s i] by blast
  then show ?thesis
  proof cases
    case 1
    with assms show ?thesis by simp
  next
    case 2
    show ?thesis
    proof
      fix t assume "t \<in> set (rows (snd (toggle_task E now s i)))"
      then obtain u where u: "u \<in> set (rows s)"
        "t = (if row_matches E i u then u\<lparr>completed := c, updated_at := now\<rparr> else u)"
        unfolding 2(1) by auto
      from u(1) assms have "columns_ok u" by blast
      then show "columns_ok t"
        unfolding u(2) using 2(2) by (simp add: columns_ok_def)
    qed
  qed
qed

lemma delete_task_columns_ok:
  assumes "\<forall>t\<in>set (rows s). columns_ok t"
  shows "\<forall>t\<in>set (rows (snd (delete_task E s i))). columns_ok t"
proof -
  consider "snd (delete_task E s i) = s"
    | "snd (delete_task E s i) = s\<lparr>rows := filter (\<lambda>t. \<not> row_matches E i t) (rows s)\<rparr>"
    using delete_task_outcome [of E s i] by blast
  then show ?thesis
  proof cases
    case 1
    with assms show ?thesis by simp
  next
    case 2
    show ?thesis unfolding 2 using assms by simp
  qed
qed

lemma medium_valid: "js ''medium'' \<in> set validPriorities"
  by (simp add: validPriorities_def)

lemma create_task_columns_ok:
  assumes "\<forall>t\<in>set (rows s). columns_ok t"
  shows "\<forall>t\<in>set (rows (snd (create_task E now s b))). columns_ok t"
proof -
  consider "snd (create_task E now s b) = s"
    | t where "create_task E now s b =
            ((201, Task_json t), \<lparr>rows = rows s @ [t], sqlite_sequence = task_id t\<rparr>)"
          "completed t = 0"
          "priority t = (if includes_val validPriorities (req_priority b)
                           then (case req_priority b of JStr p \<Rightarrow> p | _ \<Rightarrow> js ''medium'') else js ''medium'')"
    using create_task_outcome [of E now s b] by blast
  then show ?thesis
  proof cases
    case 1
    with assms show ?thesis by simp
  next
    case 2
    have "priority t \<in> set validPriorities"
      using 2(3) medium_valid by (cases "req_priority b") (auto split: if_splits)
    then have "columns_ok t" using 2(2) by (simp add: columns_ok_def)
    with assms 2(1) show ?thesis by simp
  qed
qed

lemma initial_store_columns_ok: "\<forall>t\<in>set (rows (initial_store t1 t2 t3)). columns_ok t"
  by (simp add: initial_store_def insert_row_def columns_ok_def validPriorities_def)

lemma handle_columns_ok:
  assumes "\<forall>t\<in>set (rows s). columns_ok t"
  shows "\<forall>t\<in>set (rows (snd (handle E now s r))). columns_ok t"
proof (cases r)
  case (List q)
  with assms show ?thesis by simp
next
  case (Create b)
  show ?thesis unfolding Create handle.simps by (rule create_task_columns_ok [OF assms])
next
  case (Update i b)
  show ?thesis unfolding Update handle.simps by (rule update_task_columns_ok [OF assms])
next
  case (Toggle i)
  show ?thesis unfolding Toggle handle.simps by (rule toggle_task_columns_ok [OF assms])
next
  case (Delete i)
  show ?thesis unfolding Delete handle.simps by (rule delete_task_columns_ok [OF assms])
qed

lemma reachable_columns_ok: "reachable E s \<Longrightarrow> \<forall>t\<in>set (rows s). columns_ok t"
proof (induction rule: reachable.induct)
  case (seeded t1 t2 t3)
  show ?case by (rule initial_store_columns_ok)
next
  case (served s now r)
  from served.IH show ?case by (rule handle_columns_ok)
qed

subsection \<open>Title errors of both handlers\<close>





subsection \<open>Rows and fields that a request leaves alone\<close>



subsection \<open>The toggled row\<close>

lemma reachable_completed:
  assumes "reachable E s" "find_by_id E s i = Some t"
  shows "completed t = 0 \<or> completed t = 1"
proof -
  have "t \<in> set (rows s)"
    using find_Some_set [of "row_matches E i" "rows s" t] assms(2) by (simp add: find_by_id_def)
  with reachable_columns_ok [OF assms(1)] show ?thesis by (auto simp: columns_ok_def)
qed

lemma toggle_task_found:
  assumes "parseInt i \<noteq> None" "find_by_id E s i = Some t"
  shows "toggle_task E now s i =
     ((200, Task_json (t\<lparr>completed := (if completed t = 1 then 0 else 1), updated_at := now\<rparr>)),
      snd (toggle_task E now s i))
   \<and> find_by_id E (snd (toggle_task E now s i)) i =
       Some (t\<lparr>completed := (if completed t = 1 then 0 else 1), updated_at := now\<rparr>)"
proof -
  have i: "i \<noteq> []" using assms(1) parseInt_Nil by auto
  let ?f = "\<lambda>u. u\<lparr>completed := (if completed t = 1 then 0 else 1), updated_at := now\<rparr>"
  have "find (row_matches E i) (map (\<lambda>u. if row_matches E i u then ?f u else u) (rows s))
        = map_option ?f (find (row_matches E i) (rows s))"
    by (rule find_map_matches) simp
  then show ?thesis
    unfolding toggle_task_cases [OF i assms]
    using assms(2) by (simp add: find_by_id_def)
qed

subsection \<open>The created row\<close>


subsection \<open>The SELECT statement\<close>

lemma mset_order_rows: "mset (order_rows ob ts) = mset ts"
  by (cases ob) simp_all

lemma status_literals: "js ''active'' \<noteq> js ''completed''"
  by (simp add: js_def)

lemma selected_iff:
  "list_all (\<lambda>c. holds c t) (conditions (build_query q)) \<longleftrightarrow>
     (q_status q = JStr (js ''active'') \<longrightarrow> completed t = 0) \<and>
     (q_status q = JStr (js ''completed'') \<longrightarrow> completed t = 1) \<and>
     (\<forall>p\<in>{js ''high'', js ''medium'', js ''low''}. q_priority q = JStr p \<longrightarrow> priority t = p)"
proof -
  have st: "list_all (\<lambda>c. holds c t)
        (if q_status q = JStr (js ''active'') then [Completed_eq 0]
         else if q_status q = JStr (js ''completed'') then [Completed_eq 1]
         else []) \<longleftrightarrow>
     (q_status q = JStr (js ''active'') \<longrightarrow> completed t = 0) \<and>
     (q_status q = JStr (js ''completed'') \<longrightarrow> completed t = 1)"
    using status_literals by auto
  have nonempty: "[] \<notin> set validPriorities"
    by (simp add: validPriorities_def js_def)
  have pr: "list_all (\<lambda>c. holds c t)
        (case q_priority q of
           JStr p \<Rightarrow>
             if truthy (q_priority q) \<and> includes_val validPriorities (q_priority q)
             then [Priority_eq p] else []
         | _ \<Rightarrow> []) \<longleftrightarrow>
     (\<forall>p\<in>set validPriorities. q_priority q = JStr p \<longrightarrow> priority t = p)"
    using nonempty by (cases "q_priority q") auto
  show ?thesis
    using st pr by (simp add: build_query_def validPriorities_def)
qed

lemma sort_literals:
  "js ''priority'' \<noteq> js ''due_date''"
  by (simp add: js_def)

lemma priority_rank_literals:
  "priority_rank (js ''high'') = Some 1" "priority_rank (js ''medium'') = Some 2"
  "priority_rank (js ''low'') = Some 3"
  by (simp_all add: priority_rank_def js_def)

section \<open>The claims\<close>

text \<open>The definitions that the examples below are evaluated with.\<close>

lemmas eval_defs = parseInt_def js_def is_white_space_def is_digit_def digit_value_def
  radix_value_def decimal_text_def sample_engine_def find_by_id_def row_matches_def
  initial_store_def insert_row_def no_payload_def

subsection \<open>Malformed and unknown ids\<close>

text \<open>
  Claim C10. An update or a toggle whose path segment \<open>parseInt\<close> reads as NaN is
  answered 400 with ``Valid task ID is required''. The answer is the same in every
  store and the store comes back as it was: the check precedes every statement.
\<close>

theorem malformed_id_rejected:
  "parseInt i = None \<Longrightarrow>
     update_task E now s i b = ((400, Error_json (js ''Valid task ID is required'')), s) \<and>
     toggle_task E now s i = ((400, Error_json (js ''Valid task ID is required'')), s)"
  by (simp add: update_task_def toggle_task_def)

theorem malformed_id_rejected_witness:
  "parseInt (js ''abc'') = None \<and>
   update_task sample_engine 7 (initial_store 1 2 3) (js ''abc'')
     (no_payload\<lparr>req_title := JStr (js ''x'')\<rparr>) =
     ((400, Error_json (js ''Valid task ID is required'')), initial_store 1 2 3) \<and>
   toggle_task sample_engine 7 (initial_store 1 2 3) (js ''abc'') =
     ((400, Error_json (js ''Valid task ID is required'')), initial_store 1 2 3)"
proof -
  have h: "parseInt (js ''abc'') = None" by (simp add: eval_defs)
  show ?thesis using h malformed_id_rejected [OF h] by simp
qed

text \<open>
  Claim C7 says that an update whose id matches no stored record is answered 404
  whatever the payload. The segment \<open>abc\<close> matches no record, and the answer is 400:
  the handler checks \<open>parseInt\<close> first.
\<close>

theorem update_unknown_id_counterexample:
  "find_by_id sample_engine (initial_store 1 2 3) (js ''abc'') = None \<and>
   fst (update_task sample_engine 7 (initial_store 1 2 3) (js ''abc'') no_payload) =
     (400, Error_json (js ''Valid task ID is required''))"
  by (simp add: update_task_def eval_defs)

text \<open>
  Claim C7, amended: an update whose id \<open>parseInt\<close> reads as a number and that matches
  no stored record is answered 404 with ``Task not found'' whatever the payload, and
  the store is unchanged. The payload is not looked at before.
\<close>

theorem update_unknown_id:
  "parseInt i \<noteq> None \<Longrightarrow> find_by_id E s i = None \<Longrightarrow>
     update_task E now s i b = ((404, Error_json (js ''Task not found'')), s)"
  using parseInt_Nil by (auto simp: update_task_def)

theorem update_unknown_id_witness:
  "parseInt (js ''99999'') \<noteq> None \<and>
   find_by_id sample_engine (initial_store 1 2 3) (js ''99999'') = None \<and>
   update_task sample_engine 7 (initial_store 1 2 3) (js ''99999'')
     (no_payload\<lparr>req_title := JStr [], req_priority := JStr (js ''invalid'')\<rparr>) =
     ((404, Error_json (js ''Task not found'')), initial_store 1 2 3)"
proof -
  have p: "parseInt (js ''99999'') \<noteq> None" by (simp add: eval_defs)
  have f: "find_by_id sample_engine (initial_store 1 2 3) (js ''99999'') = None"
    by (simp add: eval_defs)
  show ?thesis using p f update_unknown_id [OF p f] by simp
qed

subsection \<open>Deleting\<close>



subsection \<open>Validation\<close>








subsection \<open>Updating\<close>




subsection \<open>Toggling\<close>

text \<open>
  Claim C6. In a store that the server can be in, the \<open>completed\<close> of an existing task
  is 0 or 1, and a toggle (a request with no payload) is answered 200 with the task,
  its \<open>completed\<close> flipped and its \<open>updated_at\<close> set to the clock and nothing else
  changed; a second toggle is answered with the task as it first was, but for
  \<open>updated_at\<close>. Both are what the store then holds under that id.
\<close>

theorem toggle_flips:
  assumes "reachable E s" and "parseInt i \<noteq> None" and "find_by_id E s i = Some t"
  shows "(completed t = 0 \<or> completed t = 1)
     \<and> toggle_task E now s i =
         ((200, Task_json (t\<lparr>completed := 1 - completed t, updated_at := now\<rparr>)),
          snd (toggle_task E now s i))
     \<and> find_by_id E (snd (toggle_task E now s i)) i =
         Some (t\<lparr>completed := 1 - completed t, updated_at := now\<rparr>)
     \<and> toggle_task E now' (snd (toggle_task E now s i)) i =
         ((200, Task_json (t\<lparr>updated_at := now'\<rparr>)),
          snd (toggle_task E now' (snd (toggle_task E now s i)) i))
     \<and> find_by_id E (snd (toggle_task E now' (snd (toggle_task E now s i)) i)) i =
         Some (t\<lparr>updated_at := now'\<rparr>)"
proof -
  have c: "completed t = 0 \<or> completed t = 1"
    by (rule reachable_completed [OF assms(1,3)])
  then have flip: "(if completed t = 1 then 0 else 1) = 1 - completed t"
    by auto
  let ?t1 = "t\<lparr>completed := 1 - completed t, updated_at := now\<rparr>"
  have first: "toggle_task E now s i = ((200, Task_json ?t1), snd (toggle_task E now s i))
     \<and> find_by_id E (snd (toggle_task E now s i)) i = Some ?t1"
    using toggle_task_found [OF assms(2,3), of now] unfolding flip .
  then have found1: "find_by_id E (snd (toggle_task E now s i)) i = Some ?t1"
    by simp
  have twice: "(?t1)\<lparr>completed := (if completed (?t1) = 1 then 0 else 1), updated_at := now'\<rparr>
       = t\<lparr>updated_at := now'\<rparr>"
    using c by auto
  have second: "toggle_task E now' (snd (toggle_task E now s i)) i =
         ((200, Task_json (t\<lparr>updated_at := now'\<rparr>)),
          snd (toggle_task E now' (snd (toggle_task E now s i)) i))
     \<and> find_by_id E (snd (toggle_task E now' (snd (toggle_task E now s i)) i)) i =
         Some (t\<lparr>updated_at := now'\<rparr>)"
    using toggle_task_found [OF assms(2) found1, of now'] unfolding twice .
  from c first second show ?thesis by blast
qed

theorem toggle_flips_witness:
  "toggle_task sample_engine 7 (initial_store 1 2 3) (js ''2'') =
     ((200, Task_json ((rows (initial_store 1 2 3) ! 1)\<lparr>completed := 1, updated_at := 7\<rparr>)),
      snd (toggle_task sample_engine 7 (initial_store 1 2 3) (js ''2'')))
   \<and> toggle_task sample_engine 9 (snd (toggle_task sample_engine 7 (initial_store 1 2 3) (js ''2'')))
       (js ''2'') =
     ((200, Task_json ((rows (initial_store 1 2 3) ! 1)\<lparr>updated_at := 9\<rparr>)),
      snd (toggle_task sample_engine 9
        (snd (toggle_task sample_engine 7 (initial_store 1 2 3) (js ''2''))) (js ''2'')))"
proof -
  let ?s = "initial_store 1 2 3"
  have r: "reachable sample_engine ?s"
    by (rule reachable.seeded)
  have p: "parseInt (js ''2'') \<noteq> None"
    by (simp add: eval_defs)
  have found: "find_by_id sample_engine ?s (js ''2'') = Some (rows ?s ! 1)"
    by (simp add: eval_defs)
  have c: "1 - completed (rows ?s ! 1) = 1"
    by (simp add: initial_store_def insert_row_def)
  note w = toggle_flips [OF r p found, of 7 9]
  from w have c1: "toggle_task sample_engine 7 ?s (js ''2'') =
     ((200, Task_json ((rows ?s ! 1)\<lparr>completed := 1 - completed (rows ?s ! 1), updated_at := 7\<rparr>)),
      snd (toggle_task sample_engine 7 ?s (js ''2'')))"
    by (rule conjunct2 [THEN conjunct1])
  from w have c2: "toggle_task sample_engine 9 (snd (toggle_task sample_engine 7 ?s (js ''2'')))
       (js ''2'') =
     ((200, Task_json ((rows ?s ! 1)\<lparr>updated_at := 9\<rparr>)),
      snd (toggle_task sample_engine 9
        (snd (toggle_task sample_engine 7 ?s (js ''2''))) (js ''2'')))"
    by (rule conjunct2 [THEN conjunct2, THEN conjunct2, THEN conjunct1])
  show ?thesis using c1 c2 unfolding c by (intro conjI)
qed

subsection \<open>The range of \<open>completed\<close> and \<open>priority\<close>\<close>



subsection \<open>Listing\<close>

text \<open>
  Claim C3. A list request is answered 200 with exactly the stored tasks that pass the
  filters, each as often as it is stored: with \<open>status=active\<close> those whose \<open>completed\<close>
  is 0, with \<open>status=completed\<close> those whose \<open>completed\<close> is 1, with a \<open>priority\<close> that is
  one of the three levels those of that priority, and both when both are given; any
  other status or priority filters nothing and is no error. So with \<open>status=active\<close> no
  task in the answer has \<open>completed\<close> 1, and with \<open>priority=high\<close> every task in the
  answer has priority \<open>high\<close>. This holds under every sort key.
\<close>

theorem list_filters:
  "\<exists>out. get_tasks s q = (200, Tasks_json out)
     \<and> mset out = mset (filter (\<lambda>t.
          (q_status q = JStr (js ''active'') \<longrightarrow> completed t = 0) \<and>
          (q_status q = JStr (js ''completed'') \<longrightarrow> completed t = 1) \<and>
          (\<forall>p\<in>{js ''high'', js ''medium'', js ''low''}.
             q_priority q = JStr p \<longrightarrow> priority t = p)) (rows s))
     \<and> (q_status q = JStr (js ''active'') \<longrightarrow> (\<forall>t\<in>set out. completed t \<noteq> 1))
     \<and> (q_priority q = JStr (js ''high'') \<longrightarrow> (\<forall>t\<in>set out. priority t = js ''high''))"
proof -
  let ?P = "\<lambda>t. (q_status q = JStr (js ''active'') \<longrightarrow> completed t = 0) \<and>
          (q_status q = JStr (js ''completed'') \<longrightarrow> completed t = 1) \<and>
          (\<forall>p\<in>{js ''high'', js ''medium'', js ''low''}.
             q_priority q = JStr p \<longrightarrow> priority t = p)"
  let ?out = "select_all (build_query q) s"
  have m: "mset ?out = mset (filter ?P (rows s))"
    unfolding select_all_def mset_order_rows selected_iff ..
  then have "set ?out = set (filter ?P (rows s))"
    by (rule mset_eq_setD)
  then have mem: "\<And>t. t \<in> set ?out \<Longrightarrow> ?P t"
    by simp
  have a: "q_status q = JStr (js ''active'') \<longrightarrow> (\<forall>t\<in>set ?out. completed t \<noteq> 1)"
    using mem by fastforce
  have h: "q_priority q = JStr (js ''high'') \<longrightarrow> (\<forall>t\<in>set ?out. priority t = js ''high'')"
    using mem by fastforce
  have "get_tasks s q = (200, Tasks_json ?out)"
    by (simp add: get_tasks_def)
  with m a h show ?thesis by blast
qed

theorem list_filters_witness:
  "\<exists>out. get_tasks (initial_store 1 2 3)
        \<lparr>q_status = JStr (js ''active''), q_priority = JStr (js ''high''), q_sort = JUndefined\<rparr>
        = (200, Tasks_json out)
     \<and> (\<forall>t\<in>set out. completed t \<noteq> 1) \<and> (\<forall>t\<in>set out. priority t = js ''high'')"
proof -
  let ?q = "\<lparr>q_status = JStr (js ''active''), q_priority = JStr (js ''high''), q_sort = JUndefined\<rparr>"
  have a: "q_status ?q = JStr (js ''active'')" and h: "q_priority ?q = JStr (js ''high'')"
    by simp_all
  from list_filters [of "initial_store 1 2 3" ?q]
  obtain out where o: "get_tasks (initial_store 1 2 3) ?q = (200, Tasks_json out)"
    "q_status ?q = JStr (js ''active'') \<longrightarrow> (\<forall>t\<in>set out. completed t \<noteq> 1)"
    "q_priority ?q = JStr (js ''high'') \<longrightarrow> (\<forall>t\<in>set out. priority t = js ''high'')"
    by blast
  from o(2) a have c1: "\<forall>t\<in>set out. completed t \<noteq> 1" by (rule mp)
  from o(3) h have c2: "\<forall>t\<in>set out. priority t = js ''high''" by (rule mp)
  from o(1) c1 c2 show ?thesis by blast
qed

text \<open>
  Claim C4. In the answer to a list request with \<open>sort=priority\<close>, a task of priority
  \<open>high\<close> stands before every task of priority \<open>medium\<close>, and a task of priority \<open>medium\<close>
  before every task of priority \<open>low\<close> (so \<open>high\<close> before \<open>low\<close> as well), whatever the
  store holds and whatever the filters.
\<close>

theorem priority_order:
  assumes "q_sort q = JStr (js ''priority'')" and "get_tasks s q = (200, Tasks_json out)"
      and "i < length out" and "j < length out"
  shows "(priority (out ! i) = js ''high'' \<and> priority (out ! j) = js ''medium'' \<longrightarrow> i < j)
       \<and> (priority (out ! i) = js ''medium'' \<and> priority (out ! j) = js ''low'' \<longrightarrow> i < j)
       \<and> (priority (out ! i) = js ''high'' \<and> priority (out ! j) = js ''low'' \<longrightarrow> i < j)"
proof -
  have ob: "order_by (build_query q) = Order_priority"
    using assms(1) sort_literals by (simp add: build_query_def)
  have "out = select_all (build_query q) s"
    using assms(2) by (simp add: get_tasks_def)
  then have "sorted (map (\<lambda>t. priority_rank (priority t)) out)"
    by (simp add: select_all_def ob)
  then have mono: "\<And>a b. a \<le> b \<Longrightarrow> b < length out \<Longrightarrow>
      priority_rank (priority (out ! a)) \<le> priority_rank (priority (out ! b))"
    by (auto simp: sorted_iff_nth_mono)
  have le: "priority_rank (priority (out ! j)) \<le> priority_rank (priority (out ! i))" if "\<not> i < j"
    using that mono [of j i] assms(3) by simp
  have key: "i < j"
    if "priority_rank (priority (out ! i)) < priority_rank (priority (out ! j))"
    using that le by (cases "i < j") auto
  show ?thesis
    by (intro conjI impI key) (simp_all add: priority_rank_literals)
qed

theorem priority_order_witness:
  "priority (select_all
       (build_query \<lparr>q_status = JUndefined, q_priority = JUndefined, q_sort = JStr (js ''priority'')\<rparr>)
       (initial_store 1 2 3\<lparr>rows := rev (rows (initial_store 1 2 3))\<rparr>) ! 0) = js ''high''
   \<and> priority (select_all
       (build_query \<lparr>q_status = JUndefined, q_priority = JUndefined, q_sort = JStr (js ''priority'')\<rparr>)
       (initial_store 1 2 3\<lparr>rows := rev (rows (initial_store 1 2 3))\<rparr>) ! 1) = js ''medium''
   \<and> (0::nat) < 1"
proof -
  let ?q = "\<lparr>q_status = JUndefined, q_priority = JUndefined, q_sort = JStr (js ''priority'')\<rparr>"
  let ?s = "initial_store 1 2 3\<lparr>rows := rev (rows (initial_store 1 2 3))\<rparr>"
  let ?out = "select_all (build_query ?q) ?s"
  have out: "map task_id ?out = [1, 2, 3]"
    by (simp add: select_all_def build_query_def initial_store_def insert_row_def
          priority_rank_def js_def)
  have q: "q_sort ?q = JStr (js ''priority'')"
    by simp
  have g: "get_tasks ?s ?q = (200, Tasks_json ?out)"
    by (simp add: get_tasks_def)
  have len: "length ?out = 3"
    using out by (metis length_map length_Cons list.size(3) numeral_3_eq_3)
  then have i: "0 < length ?out" and j: "1 < length ?out"
    by simp_all
  have hm: "priority (?out ! 0) = js ''high'' \<and> priority (?out ! 1) = js ''medium''"
    by (simp add: select_all_def build_query_def initial_store_def insert_row_def
          priority_rank_def js_def)
  from priority_order [OF q g i j, THEN conjunct1, THEN mp, OF hm] hm
  show ?thesis by simp
qed

end
